theory Spec2Isabelle
  imports Complex_Main "HOL-Library.Word"
begin

unbundle bit_operations_syntax

section \<open>Bytes and the host representation of 16-bit fields\<close>

text \<open>
  The driver (CCS811_driver.h, CCS811_driver.cpp) views every register as a C union of a
  raw byte array and typed fields. A union is modelled by its raw bytes, the single store
  that all views share; a typed field is read from and written to those bytes.

  The driver is an Arduino library. Every Arduino core (AVR, ARM Cortex-M, ESP, RISC-V)
  is little-endian, so a 16-bit field that overlays \<open>raw[k]\<close> and \<open>raw[k + 1]\<close> has its
  least significant byte in \<open>raw[k]\<close>. The driver itself relies on this layout: it calls
  \<open>swap_endianess\<close> on 16-bit fields to obtain the big-endian wire order.
\<close>

type_synonym byte = "8 word"
type_synonym uint16_t = "16 word"

definition host_uint16 :: "byte list \<Rightarrow> uint16_t" where
  "host_uint16 raw = push_bit 8 (ucast (raw ! 1)) OR ucast (raw ! 0)"

definition host_bytes :: "uint16_t \<Rightarrow> byte list" where
  "host_bytes v = [ucast v, ucast (drop_bit 8 v)]"

section \<open>\<open>swap_endianess\<close> (CCS811_driver.cpp, lines 355-361)\<close>

text \<open>
  \<^verbatim>\<open>for (size_t i = 0; i < size / 2; i++) {
      uint8_t temp = buffer[i];
      buffer[i] = buffer[size - 1 - i];
      buffer[size - 1 - i] = temp; }\<close>
  The buffer is the memory starting at the pointer; the function returns its new
  contents. Inside the loop \<open>i < size / 2\<close>, so \<open>size - 1 - i\<close> does not wrap. A \<open>size\<close>
  larger than the buffer is an out-of-bounds access in C++ and is outside the model:
  the theorems require \<open>size \<le> length buffer\<close>.
\<close>

function swap_loop :: "nat \<Rightarrow> nat \<Rightarrow> byte list \<Rightarrow> byte list" where
  "swap_loop i sz buffer =
     (if i < sz div 2
      then let temp = buffer ! i;
               buffer = buffer[i := buffer ! (sz - 1 - i)];
               buffer = buffer[sz - 1 - i := temp]
           in swap_loop (i + 1) sz buffer
      else buffer)"
  by pat_completeness auto
termination
  by (relation "measure (\<lambda>(i, sz, buffer). sz div 2 - i)") auto

declare swap_loop.simps [simp del]

definition swap_endianess :: "byte list \<Rightarrow> nat \<Rightarrow> byte list" where
  "swap_endianess buffer sz = swap_loop 0 sz buffer"

text \<open>
  The call \<open>swap_endianess((uint8_t*)&u.field, sizeof(u.field))\<close> on a field at byte
  offset \<open>off\<close> of a union: the pointer designates the bytes from \<open>off\<close> onwards.
\<close>

definition swap_endianess_at :: "nat \<Rightarrow> byte list \<Rightarrow> nat \<Rightarrow> byte list" where
  "swap_endianess_at off raw sz = take off raw @ swap_endianess (drop off raw) sz"

section \<open>The two-wire bus\<close>

text \<open>
  Modelled from the spec: the bus transport of specification section 6, which the
  driver reaches through the Arduino objects \<open>Wire\<close>, \<open>delay\<close> and \<open>Log\<close>; they belong to
  the platform, not to the repository. The bus is a parameter of the model: it answers
  each transmission with a status code (0 for success) and each request with the bytes
  the device delivers, both as functions of everything that happened on the bus so far
  (newest event first). The platform state holds the buffers of \<open>Wire\<close> and the trace
  of bus events: \<open>beginTransmission\<close> and \<open>write\<close> queue bytes, \<open>endTransmission\<close> sends
  them, \<open>requestFrom\<close> fetches at most the quantity asked, \<open>available\<close> and \<open>read\<close>
  consume what was fetched (\<open>read\<close> returns -1 on an empty buffer). The driver queues at
  most ten bytes, below the 32-byte buffer of \<open>Wire\<close>. Logging has no effect on the
  driver and is left out.
\<close>

datatype event =
    Transmit byte "byte list"  \<comment> \<open>device address, bytes sent by \<open>endTransmission\<close>\<close>
  | Request byte nat           \<comment> \<open>device address, quantity asked by \<open>requestFrom\<close>\<close>
  | Delay nat                  \<comment> \<open>milliseconds spent in \<open>delay\<close>\<close>

record bus =
  end_status :: "event list \<Rightarrow> byte"
  rx_data :: "event list \<Rightarrow> byte list"

record system =
  device_address :: byte       \<comment> \<open>\<open>CCS811::_device_address\<close>\<close>
  tx_address :: byte
  tx_buffer :: "byte list"
  rx_buffer :: "byte list"
  trace :: "event list"

definition Wire_beginTransmission :: "byte \<Rightarrow> system \<Rightarrow> system" where
  "Wire_beginTransmission a s = s\<lparr>tx_address := a, tx_buffer := []\<rparr>"

definition Wire_write :: "byte \<Rightarrow> system \<Rightarrow> system" where
  "Wire_write c s = s\<lparr>tx_buffer := tx_buffer s @ [c]\<rparr>"

definition Wire_endTransmission :: "bus \<Rightarrow> system \<Rightarrow> byte \<times> system" where
  "Wire_endTransmission b s =
     (let tr = Transmit (tx_address s) (tx_buffer s) # trace s
      in (end_status b tr, s\<lparr>tx_buffer := [], trace := tr\<rparr>))"

definition Wire_requestFrom :: "bus \<Rightarrow> byte \<Rightarrow> nat \<Rightarrow> system \<Rightarrow> system" where
  "Wire_requestFrom b a quantity s =
     (let tr = Request a quantity # trace s
      in s\<lparr>rx_buffer := take quantity (rx_data b tr), trace := tr\<rparr>)"

definition Wire_available :: "system \<Rightarrow> nat" where
  "Wire_available s = length (rx_buffer s)"

definition Wire_read :: "system \<Rightarrow> int \<times> system" where
  "Wire_read s =
     (case rx_buffer s of
        [] \<Rightarrow> (- 1, s)
      | c # cs \<Rightarrow> (uint c, s\<lparr>rx_buffer := cs\<rparr>))"

definition delay :: "nat \<Rightarrow> system \<Rightarrow> system" where
  "delay ms s = s\<lparr>trace := Delay ms # trace s\<rparr>"

section \<open>Registers and constants (CCS811_driver.h)\<close>

datatype ccs811_reg_t =
    STATUS | MEAS_MODE | ALG_RESULT_DATA | RAW_DATA | ENV_DATA | THRESHOLDS | BASELINE
  | HW_ID | HW_VERSION | FW_BOOT_VERSION | FW_APP_VERSION | INTERNAL_STATE | ERROR_ID
  | APP_ERASE | APP_DATA | APP_VERIFY | APP_START | SW_RESET

fun reg_value :: "ccs811_reg_t \<Rightarrow> byte" where
  "reg_value STATUS = 0x00"
| "reg_value MEAS_MODE = 0x01"
| "reg_value ALG_RESULT_DATA = 0x02"
| "reg_value RAW_DATA = 0x03"
| "reg_value ENV_DATA = 0x05"
| "reg_value THRESHOLDS = 0x10"
| "reg_value BASELINE = 0x11"
| "reg_value HW_ID = 0x20"
| "reg_value HW_VERSION = 0x21"
| "reg_value FW_BOOT_VERSION = 0x23"
| "reg_value FW_APP_VERSION = 0x24"
| "reg_value INTERNAL_STATE = 0xA0"
| "reg_value ERROR_ID = 0xE0"
| "reg_value APP_ERASE = 0xF1"
| "reg_value APP_DATA = 0xF2"
| "reg_value APP_VERIFY = 0xF3"
| "reg_value APP_START = 0xF4"
| "reg_value SW_RESET = 0xFF"

definition CCS811_HARDWARE_ID :: byte where
  "CCS811_HARDWARE_ID = 0x81"

definition CCS811_DEFAULT_I2C_ADDRESS :: byte where
  "CCS811_DEFAULT_I2C_ADDRESS = 0x5A"

definition CCS811_APPLICATION_ERASE_SEQUENCE :: "byte list" where
  "CCS811_APPLICATION_ERASE_SEQUENCE = [0xE7, 0xA7, 0xE6, 0x09]"

definition CCS811_RESET_SEQUENCE :: "byte list" where
  "CCS811_RESET_SEQUENCE = [0x11, 0xE5, 0x72, 0x8A]"

section \<open>The private register transfers (CCS811_driver.cpp, lines 43-81)\<close>

text \<open>
  \<open>write(uint8_t* input, ccs811_reg_t address, uint8_t length)\<close>. Every caller passes
  the size of the buffer as \<open>length\<close>; reading \<open>input[i]\<close> beyond the buffer is outside
  the model.
\<close>

function write_loop :: "nat \<Rightarrow> nat \<Rightarrow> byte list \<Rightarrow> system \<Rightarrow> system" where
  "write_loop i len input s =
     (if i < len then write_loop (i + 1) len input (Wire_write (input ! i) s) else s)"
  by pat_completeness auto
termination
  by (relation "measure (\<lambda>(i, len, input, s). len - i)") auto

declare write_loop.simps [simp del]

definition write_register :: "bus \<Rightarrow> byte list \<Rightarrow> ccs811_reg_t \<Rightarrow> nat \<Rightarrow> system \<Rightarrow> bool \<times> system" where
  "write_register b input address len s =
     (let s = Wire_beginTransmission (device_address s) s;
          s = Wire_write (reg_value address) s;
          s = write_loop 0 len input s;
          (status, s) = Wire_endTransmission b s
      in (if status \<noteq> 0 then False else True, s))"

text \<open>
  \<open>read(uint8_t* output, ccs811_reg_t address, uint8_t length)\<close> returns its result and
  the new contents of the caller's buffer. \<open>output[i] = c\<close> converts the \<open>int\<close> of
  \<open>Wire.read()\<close> to a byte.
\<close>

function read_loop :: "nat \<Rightarrow> nat \<Rightarrow> byte list \<Rightarrow> system \<Rightarrow> byte list \<times> system" where
  "read_loop i len output s =
     (if i < len \<and> Wire_available s \<noteq> 0
      then let (c, s) = Wire_read s;
               output = output[i := word_of_int c]
           in read_loop (i + 1) len output s
      else (output, s))"
  by pat_completeness auto
termination
  by (relation "measure (\<lambda>(i, len, output, s). len - i)") auto

declare read_loop.simps [simp del]

definition read_register ::
  "bus \<Rightarrow> byte list \<Rightarrow> ccs811_reg_t \<Rightarrow> nat \<Rightarrow> system \<Rightarrow> bool \<times> byte list \<times> system" where
  "read_register b output address len s =
     (let s = Wire_beginTransmission (device_address s) s;
          s = Wire_write (reg_value address) s;
          (status, s) = Wire_endTransmission b s
      in if status \<noteq> 0 then (False, output, s)
         else let s = Wire_requestFrom b (device_address s) len s;
                  (output, s) = read_loop 0 len output s
              in (True, output, s))"

section \<open>Typed register reads (CCS811_driver.cpp, lines 89-182)\<close>

text \<open>
  A one-byte union is its \<open>raw\<close> byte, read through the one-byte buffer \<open>&x.raw\<close> with
  the default length 1. A larger union is its \<open>raw\<close> array. Each read takes the caller's
  container and returns the result with the container's new contents.
\<close>

type_synonym ccs811_status_t = byte
type_synonym ccs811_measure_config_t = byte
type_synonym ccs811_hardware_id_t = byte
type_synonym ccs811_hardware_version_t = byte
type_synonym ccs811_error_t = byte
type_synonym ccs811_application_verify_t = byte
type_synonym ccs811_application_start_t = byte
type_synonym ccs811_eCO2_data_t = "byte list"                     \<comment> \<open>\<open>raw[2]\<close>\<close>
type_synonym ccs811_eTVOC_data_t = "byte list"                    \<comment> \<open>\<open>raw[2]\<close>\<close>
type_synonym ccs811_air_quality_data_t = "byte list"              \<comment> \<open>\<open>raw[4]\<close>\<close>
type_synonym ccs811_raw_data_t = "byte list"                      \<comment> \<open>\<open>raw[2]\<close>\<close>
type_synonym ccs811_environmental_data_t = "byte list"            \<comment> \<open>\<open>raw[4]\<close>\<close>
type_synonym ccs811_co2_thresholds_t = "byte list"                \<comment> \<open>\<open>raw[4]\<close>\<close>
type_synonym ccs811_baseline_t = "byte list"                      \<comment> \<open>\<open>raw[2]\<close>\<close>
type_synonym ccs811_firmware_boot_version_t = "byte list"         \<comment> \<open>\<open>raw[2]\<close>\<close>
type_synonym ccs811_firmware_application_version_t = "byte list"  \<comment> \<open>\<open>raw[2]\<close>\<close>
type_synonym ccs811_application_erase_t = "byte list"             \<comment> \<open>\<open>uint8_t[4]\<close>\<close>
type_synonym ccs811_application_data_t = "byte list"              \<comment> \<open>\<open>raw[9]\<close>\<close>
type_synonym ccs811_reset_t = "byte list"                         \<comment> \<open>\<open>raw[4]\<close>\<close>
type_synonym ccs811_all_data_t = "byte list"                      \<comment> \<open>\<open>raw[8]\<close>\<close>

text \<open>Fields of the unions, at their byte offsets on the host.\<close>

definition total :: "byte list \<Rightarrow> uint16_t" where
  "total data = host_uint16 data"

definition low_limit :: "ccs811_co2_thresholds_t \<Rightarrow> uint16_t" where
  "low_limit thresholds = host_uint16 (drop 0 thresholds)"

definition high_limit :: "ccs811_co2_thresholds_t \<Rightarrow> uint16_t" where
  "high_limit thresholds = host_uint16 (drop 2 thresholds)"

definition eTVOC_reading :: "ccs811_air_quality_data_t \<Rightarrow> ccs811_eTVOC_data_t" where
  "eTVOC_reading data = take 2 (drop 0 data)"

definition read_byte ::
  "bus \<Rightarrow> byte \<Rightarrow> ccs811_reg_t \<Rightarrow> system \<Rightarrow> bool \<times> byte \<times> system" where
  "read_byte b raw address s =
     (let (success, output, s) = read_register b [raw] address 1 s
      in (success, output ! 0, s))"

definition read_status ::
  "bus \<Rightarrow> ccs811_status_t \<Rightarrow> system \<Rightarrow> bool \<times> ccs811_status_t \<times> system" where
  "read_status b status s = read_byte b status STATUS s"

definition read_measure_config ::
  "bus \<Rightarrow> ccs811_measure_config_t \<Rightarrow> system \<Rightarrow> bool \<times> ccs811_measure_config_t \<times> system" where
  "read_measure_config b config s = read_byte b config MEAS_MODE s"

definition read_co2_thresholds ::
  "bus \<Rightarrow> ccs811_co2_thresholds_t \<Rightarrow> system \<Rightarrow> bool \<times> ccs811_co2_thresholds_t \<times> system" where
  "read_co2_thresholds b thresholds s =
     (let (success, thresholds, s) = read_register b thresholds THRESHOLDS 4 s;
          thresholds = swap_endianess_at 0 thresholds 2;
          thresholds = swap_endianess_at 2 thresholds 2
      in (success, thresholds, s))"

definition read_eCO2_data ::
  "bus \<Rightarrow> ccs811_eCO2_data_t \<Rightarrow> system \<Rightarrow> bool \<times> ccs811_eCO2_data_t \<times> system" where
  "read_eCO2_data b data s = read_register b data ALG_RESULT_DATA 2 s"

text \<open>
  \<open>read(ccs811_eTVOC_data_t&)\<close> reads into a local \<open>ccs811_air_quality_data_t output\<close>
  that it does not initialise; \<open>output\<close> is what that local holds on entry.
\<close>

definition read_eTVOC_data ::
  "bus \<Rightarrow> ccs811_air_quality_data_t \<Rightarrow> system \<Rightarrow> bool \<times> ccs811_eTVOC_data_t \<times> system" where
  "read_eTVOC_data b output s =
     (let (success, output, s) = read_register b output ALG_RESULT_DATA 4 s;
          data = eTVOC_reading output
      in (success, data, s))"

definition read_raw_data ::
  "bus \<Rightarrow> ccs811_raw_data_t \<Rightarrow> system \<Rightarrow> bool \<times> ccs811_raw_data_t \<times> system" where
  "read_raw_data b data s = read_register b data RAW_DATA 2 s"

definition read_air_quality_data ::
  "bus \<Rightarrow> ccs811_air_quality_data_t \<Rightarrow> system \<Rightarrow> bool \<times> ccs811_air_quality_data_t \<times> system" where
  "read_air_quality_data b data s = read_register b data ALG_RESULT_DATA 4 s"

definition read_all_data ::
  "bus \<Rightarrow> ccs811_all_data_t \<Rightarrow> system \<Rightarrow> bool \<times> ccs811_all_data_t \<times> system" where
  "read_all_data b data s = read_register b data ALG_RESULT_DATA 8 s"

definition read_baseline ::
  "bus \<Rightarrow> ccs811_baseline_t \<Rightarrow> system \<Rightarrow> bool \<times> ccs811_baseline_t \<times> system" where
  "read_baseline b baseline s = read_register b baseline BASELINE 2 s"

definition read_hardware_id ::
  "bus \<Rightarrow> ccs811_hardware_id_t \<Rightarrow> system \<Rightarrow> bool \<times> ccs811_hardware_id_t \<times> system" where
  "read_hardware_id b hwid s = read_byte b hwid HW_ID s"

definition read_hardware_version ::
  "bus \<Rightarrow> ccs811_hardware_version_t \<Rightarrow> system \<Rightarrow> bool \<times> ccs811_hardware_version_t \<times> system" where
  "read_hardware_version b version s = read_byte b version HW_VERSION s"

definition read_firmware_boot_version ::
  "bus \<Rightarrow> ccs811_firmware_boot_version_t \<Rightarrow> system
     \<Rightarrow> bool \<times> ccs811_firmware_boot_version_t \<times> system" where
  "read_firmware_boot_version b version s = read_register b version FW_BOOT_VERSION 2 s"

definition read_firmware_application_version ::
  "bus \<Rightarrow> ccs811_firmware_application_version_t \<Rightarrow> system
     \<Rightarrow> bool \<times> ccs811_firmware_application_version_t \<times> system" where
  "read_firmware_application_version b version s = read_register b version FW_APP_VERSION 2 s"

definition read_error ::
  "bus \<Rightarrow> ccs811_error_t \<Rightarrow> system \<Rightarrow> bool \<times> ccs811_error_t \<times> system" where
  "read_error b error s = read_byte b error ERROR_ID s"

section \<open>Typed register writes (CCS811_driver.cpp, lines 190-253)\<close>

definition write_byte :: "bus \<Rightarrow> byte \<Rightarrow> ccs811_reg_t \<Rightarrow> system \<Rightarrow> bool \<times> system" where
  "write_byte b raw address s = write_register b [raw] address 1 s"

definition write_measure_config :: "bus \<Rightarrow> ccs811_measure_config_t \<Rightarrow> system \<Rightarrow> bool \<times> system" where
  "write_measure_config b config s = write_byte b config MEAS_MODE s"

definition write_environmental_data_t ::
  "bus \<Rightarrow> ccs811_environmental_data_t \<Rightarrow> system \<Rightarrow> bool \<times> system" where
  "write_environmental_data_t b data s = write_register b data ENV_DATA 4 s"

definition write_co2_thresholds_t ::
  "bus \<Rightarrow> ccs811_co2_thresholds_t \<Rightarrow> system \<Rightarrow> bool \<times> system" where
  "write_co2_thresholds_t b thresholds s =
     (let thresholds = swap_endianess_at 0 thresholds 2;
          thresholds = swap_endianess_at 2 thresholds 2
      in write_register b thresholds THRESHOLDS 4 s)"

definition write_baseline :: "bus \<Rightarrow> ccs811_baseline_t \<Rightarrow> system \<Rightarrow> bool \<times> system" where
  "write_baseline b baseline s = write_register b baseline BASELINE 2 s"

definition write_application_data ::
  "bus \<Rightarrow> ccs811_application_data_t \<Rightarrow> system \<Rightarrow> bool \<times> system" where
  "write_application_data b data s = write_register b data APP_DATA 9 s"

definition write_application_verify ::
  "bus \<Rightarrow> ccs811_application_verify_t \<Rightarrow> system \<Rightarrow> bool \<times> system" where
  "write_application_verify b code s = write_byte b code APP_VERIFY s"

definition write_application_start ::
  "bus \<Rightarrow> ccs811_application_start_t \<Rightarrow> system \<Rightarrow> bool \<times> system" where
  "write_application_start b code s = write_byte b code APP_START s"

text \<open>
  \<open>write(ccs811_application_erase_t sequence)\<close> passes \<open>sizeof(sequence)\<close> as the length.
  The type is \<open>uint8_t[4]\<close>, and a parameter of array type is a pointer, so the length is
  the size of a pointer on the target, not 4: \<open>sizeof_pointer\<close> is 2 on AVR, 4 on the
  32-bit cores and 8 on a 64-bit host. \<open>sequence\<close> is the caller's array, four bytes long;
  with a larger length the loop of the private write reads beyond it, which is outside
  the model.
\<close>

definition write_application_erase ::
  "bus \<Rightarrow> nat \<Rightarrow> ccs811_application_erase_t \<Rightarrow> system \<Rightarrow> bool \<times> system" where
  "write_application_erase b sizeof_pointer sequence s =
     write_register b sequence APP_ERASE sizeof_pointer s"

definition write_reset :: "bus \<Rightarrow> ccs811_reset_t \<Rightarrow> system \<Rightarrow> bool \<times> system" where
  "write_reset b sequence s = write_register b sequence SW_RESET 4 s"

section \<open>Convenience operations (CCS811_driver.cpp, lines 263-349)\<close>

text \<open>
  \<open>(uint16_t)x\<close> on a \<open>float\<close> truncates towards zero; C++ defines the conversion only
  when the truncated value fits the destination type. A finite \<open>float\<close> is modelled by
  its value, a real number. This is exact for the driver's arithmetic: multiplying a
  binary32 value by 512 only changes its exponent, and \<open>temperature - 25\<close> is computed
  without rounding whenever the product lies in the range where the conversion is
  defined (then \<open>25 - 1/512 < temperature < 153\<close>, and the difference is a multiple of
  the last binary digit of \<open>temperature\<close> that is smaller than \<open>temperature\<close>).
\<close>

datatype error = Undefined_conversion

definition float_to_uint16 :: "real \<Rightarrow> error + uint16_t" where
  "float_to_uint16 x =
     (if - 1 < x \<and> x < 65536
      then Inr (word_of_int (if 0 \<le> x then \<lfloor>x\<rfloor> else \<lceil>x\<rceil>))
      else Inl Undefined_conversion)"

text \<open>
  \<open>write_environmental_data\<close> assigns both \<open>total\<close> fields of its local \<open>data\<close>, which
  sets all four bytes: humidity at offset 0, temperature at offset 2.
\<close>

definition write_environmental_data ::
  "bus \<Rightarrow> real \<Rightarrow> real \<Rightarrow> system \<Rightarrow> error + bool \<times> system" where
  "write_environmental_data b temperature humidity s =
     (case float_to_uint16 ((temperature - 25) * 512) of
        Inl e \<Rightarrow> Inl e
      | Inr temperature_total \<Rightarrow>
          (case float_to_uint16 (humidity * 512) of
             Inl e \<Rightarrow> Inl e
           | Inr humidity_total \<Rightarrow>
               (let data = host_bytes humidity_total @ host_bytes temperature_total;
                    data = swap_endianess_at 2 data 2;
                    data = swap_endianess_at 0 data 2
                in Inr (write_environmental_data_t b data s))))"

text \<open>
  \<open>write_co2_thresholds\<close> assigns \<open>low_limit\<close> (offset 0) and \<open>high_limit\<close> (offset 2) of
  its local, which sets all four bytes.
\<close>

definition write_co2_thresholds ::
  "bus \<Rightarrow> uint16_t \<Rightarrow> uint16_t \<Rightarrow> system \<Rightarrow> bool \<times> system" where
  "write_co2_thresholds b low_threshold high_threshold s =
     (let thresholds = host_bytes low_threshold @ host_bytes high_threshold
      in write_co2_thresholds_t b thresholds s)"

text \<open>
  The getters declare a local \<open>data\<close> without initialising it, call \<open>read(data)\<close>, drop
  its result and return \<open>data.total\<close>. The argument \<open>data\<close> (for \<open>get_eTVOC\<close>: \<open>output\<close>,
  the local inside \<open>read(ccs811_eTVOC_data_t&)\<close>) is what the local holds on entry.
\<close>

definition get_eCO2 :: "bus \<Rightarrow> ccs811_eCO2_data_t \<Rightarrow> system \<Rightarrow> uint16_t \<times> system" where
  "get_eCO2 b data s =
     (let (success, data, s) = read_eCO2_data b data s
      in (total data, s))"

definition get_eTVOC :: "bus \<Rightarrow> ccs811_air_quality_data_t \<Rightarrow> system \<Rightarrow> uint16_t \<times> system" where
  "get_eTVOC b output s =
     (let (success, data, s) = read_eTVOC_data b output s
      in (total data, s))"

text \<open>
  \<open>reset\<close> and \<open>start_application_erase\<close> fill a local with \<open>memcpy_P\<close> from the constant
  of the header. \<open>memcpy_P\<close> is modelled as the copy that it is on every core with one
  address space; on AVR it reads program memory, where the constants (declared without
  \<open>PROGMEM\<close>) do not lie, so there the source does not determine the bytes copied.
  \<open>start_application_erase\<close> takes the size of a pointer on the target, which
  \<open>write(ccs811_application_erase_t)\<close> uses as the length.
\<close>

definition reset :: "bus \<Rightarrow> system \<Rightarrow> bool \<times> system" where
  "reset b s =
     (let sequence = CCS811_RESET_SEQUENCE
      in write_reset b sequence s)"

definition start_application_erase :: "bus \<Rightarrow> nat \<Rightarrow> system \<Rightarrow> bool \<times> system" where
  "start_application_erase b sizeof_pointer s =
     (let sequence = CCS811_APPLICATION_ERASE_SEQUENCE
      in write_application_erase b sizeof_pointer sequence s)"

text \<open>Both commands below write a local \<open>code\<close> that they do not initialise.\<close>

definition start_application_verify ::
  "bus \<Rightarrow> ccs811_application_verify_t \<Rightarrow> system \<Rightarrow> bool \<times> system" where
  "start_application_verify b code s = write_application_verify b code s"

definition start_application_mode ::
  "bus \<Rightarrow> ccs811_application_start_t \<Rightarrow> system \<Rightarrow> bool \<times> system" where
  "start_application_mode b code s = write_application_start b code s"

section \<open>\<open>comms_check\<close> and \<open>begin\<close> (CCS811_driver.cpp, lines 10-33)\<close>

text \<open>
  \<^verbatim>\<open>ccs811_hardware_id_t id;
  bool success = read(id);
  uint8_t retries = 0;
  while (not success and retries < 10) {
      success = read(id); retries++; delay(10); Log.trace(...); }
  return id.raw == CCS811_HARDWARE_ID;\<close>
  The local \<open>id\<close> is not initialised; \<open>hwid\<close> is what it holds on entry.
\<close>

function comms_check_loop ::
  "bus \<Rightarrow> bool \<Rightarrow> nat \<Rightarrow> ccs811_hardware_id_t \<Rightarrow> system \<Rightarrow> ccs811_hardware_id_t \<times> system" where
  "comms_check_loop b success retries hwid s =
     (if \<not> success \<and> retries < 10
      then let (success, hwid, s) = read_hardware_id b hwid s;
               retries = retries + 1;
               s = delay 10 s
           in comms_check_loop b success retries hwid s
      else (hwid, s))"
  by pat_completeness auto
termination
  by (relation "measure (\<lambda>(b, success, retries, hwid, s). 10 - retries)") auto

declare comms_check_loop.simps [simp del]

definition comms_check :: "bus \<Rightarrow> ccs811_hardware_id_t \<Rightarrow> system \<Rightarrow> bool \<times> system" where
  "comms_check b hwid s =
     (let (success, hwid, s) = read_hardware_id b hwid s;
          retries = 0;
          (hwid, s) = comms_check_loop b success retries hwid s
      in (hwid = CCS811_HARDWARE_ID, s))"

definition begin_ccs811 ::
  "bus \<Rightarrow> byte \<Rightarrow> ccs811_hardware_id_t \<Rightarrow> system \<Rightarrow> bool \<times> system" where
  "begin_ccs811 b address hwid s = comms_check b hwid (s\<lparr>device_address := address\<rparr>)"

section \<open>The public interface of class \<open>CCS811\<close> (CCS811_driver.h, lines 269-305)\<close>

text \<open>
  One constructor per public member function, with its arguments, the caller's container
  for a read, the contents of an uninitialised local where the function has one, and for
  \<open>start_application_erase\<close> the size of a pointer on the target.
  \<open>perform\<close> calls the member function and keeps its return value.
\<close>

datatype call =
    Begin byte ccs811_hardware_id_t
  | Comms_check ccs811_hardware_id_t
  | Read_status ccs811_status_t
  | Read_measure_config ccs811_measure_config_t
  | Read_co2_thresholds ccs811_co2_thresholds_t
  | Read_eCO2_data ccs811_eCO2_data_t
  | Read_eTVOC_data ccs811_air_quality_data_t
  | Read_raw_data ccs811_raw_data_t
  | Read_air_quality_data ccs811_air_quality_data_t
  | Read_all_data ccs811_all_data_t
  | Read_baseline ccs811_baseline_t
  | Read_hardware_id ccs811_hardware_id_t
  | Read_hardware_version ccs811_hardware_version_t
  | Read_firmware_boot_version ccs811_firmware_boot_version_t
  | Read_firmware_application_version ccs811_firmware_application_version_t
  | Read_error ccs811_error_t
  | Write_measure_config ccs811_measure_config_t
  | Write_environmental_data_t ccs811_environmental_data_t
  | Write_co2_thresholds_t ccs811_co2_thresholds_t
  | Write_baseline ccs811_baseline_t
  | Write_application_data ccs811_application_data_t
  | Write_application_verify ccs811_application_verify_t
  | Write_application_start ccs811_application_start_t
  | Write_environmental_data real real
  | Write_co2_thresholds uint16_t uint16_t
  | Get_eCO2 ccs811_eCO2_data_t
  | Get_eTVOC ccs811_air_quality_data_t
  | Reset
  | Start_application_erase nat
  | Start_application_verify ccs811_application_verify_t
  | Start_application_mode ccs811_application_start_t

datatype outcome = Flag bool | Scalar uint16_t

definition flag_of_read :: "bool \<times> 'a \<times> system \<Rightarrow> error + outcome \<times> system" where
  "flag_of_read r = (case r of (success, x, s) \<Rightarrow> Inr (Flag success, s))"

definition flag_of_write :: "bool \<times> system \<Rightarrow> error + outcome \<times> system" where
  "flag_of_write r = (case r of (success, s) \<Rightarrow> Inr (Flag success, s))"

definition scalar_of :: "uint16_t \<times> system \<Rightarrow> error + outcome \<times> system" where
  "scalar_of r = (case r of (v, s) \<Rightarrow> Inr (Scalar v, s))"

fun perform :: "bus \<Rightarrow> call \<Rightarrow> system \<Rightarrow> error + outcome \<times> system" where
  "perform b (Begin a hwid) s = flag_of_write (begin_ccs811 b a hwid s)"
| "perform b (Comms_check hwid) s = flag_of_write (comms_check b hwid s)"
| "perform b (Read_status x) s = flag_of_read (read_status b x s)"
| "perform b (Read_measure_config x) s = flag_of_read (read_measure_config b x s)"
| "perform b (Read_co2_thresholds x) s = flag_of_read (read_co2_thresholds b x s)"
| "perform b (Read_eCO2_data x) s = flag_of_read (read_eCO2_data b x s)"
| "perform b (Read_eTVOC_data x) s = flag_of_read (read_eTVOC_data b x s)"
| "perform b (Read_raw_data x) s = flag_of_read (read_raw_data b x s)"
| "perform b (Read_air_quality_data x) s = flag_of_read (read_air_quality_data b x s)"
| "perform b (Read_all_data x) s = flag_of_read (read_all_data b x s)"
| "perform b (Read_baseline x) s = flag_of_read (read_baseline b x s)"
| "perform b (Read_hardware_id x) s = flag_of_read (read_hardware_id b x s)"
| "perform b (Read_hardware_version x) s = flag_of_read (read_hardware_version b x s)"
| "perform b (Read_firmware_boot_version x) s =
     flag_of_read (read_firmware_boot_version b x s)"
| "perform b (Read_firmware_application_version x) s =
     flag_of_read (read_firmware_application_version b x s)"
| "perform b (Read_error x) s = flag_of_read (read_error b x s)"
| "perform b (Write_measure_config x) s = flag_of_write (write_measure_config b x s)"
| "perform b (Write_environmental_data_t x) s =
     flag_of_write (write_environmental_data_t b x s)"
| "perform b (Write_co2_thresholds_t x) s = flag_of_write (write_co2_thresholds_t b x s)"
| "perform b (Write_baseline x) s = flag_of_write (write_baseline b x s)"
| "perform b (Write_application_data x) s = flag_of_write (write_application_data b x s)"
| "perform b (Write_application_verify x) s = flag_of_write (write_application_verify b x s)"
| "perform b (Write_application_start x) s = flag_of_write (write_application_start b x s)"
| "perform b (Write_environmental_data t h) s =
     (case write_environmental_data b t h s of Inl e \<Rightarrow> Inl e | Inr r \<Rightarrow> flag_of_write r)"
| "perform b (Write_co2_thresholds lo hi) s = flag_of_write (write_co2_thresholds b lo hi s)"
| "perform b (Get_eCO2 x) s = scalar_of (get_eCO2 b x s)"
| "perform b (Get_eTVOC x) s = scalar_of (get_eTVOC b x s)"
| "perform b Reset s = flag_of_write (reset b s)"
| "perform b (Start_application_erase n) s = flag_of_write (start_application_erase b n s)"
| "perform b (Start_application_verify x) s = flag_of_write (start_application_verify b x s)"
| "perform b (Start_application_mode x) s = flag_of_write (start_application_mode b x s)"


fun is_begin :: "call \<Rightarrow> bool" where
  "is_begin (Begin a hwid) = True"
| "is_begin c = False"


text \<open>Calls in program order, stopping at an undefined conversion.\<close>

fun perform_all :: "bus \<Rightarrow> call list \<Rightarrow> system \<Rightarrow> error + system" where
  "perform_all b [] s = Inr s"
| "perform_all b (c # cs) s =
     (case perform b c s of Inl e \<Rightarrow> Inl e | Inr (r, s') \<Rightarrow> perform_all b cs s')"

section \<open>Properties of bus traces\<close>

fun addressed :: "byte \<Rightarrow> event \<Rightarrow> bool" where
  "addressed a (Transmit d payload) = (d = a)"
| "addressed a (Request d quantity) = (d = a)"
| "addressed a (Delay ms) = True"

text \<open>
  \<open>new_events s s'\<close> are the events that the trace of \<open>s'\<close> has in front of the trace of
  \<open>s\<close>. \<open>extends a s s'\<close>: the trace of \<open>s'\<close> is the trace of \<open>s\<close> with new events in
  front, each one a delay or a bus transaction with the device at address \<open>a\<close>.
  \<open>keeps_address s s'\<close>: moreover \<open>a\<close> is the device address stored in \<open>s\<close>, and \<open>s'\<close>
  stores the same address.
\<close>

definition new_events :: "system \<Rightarrow> system \<Rightarrow> event list" where
  "new_events s s' = take (length (trace s') - length (trace s)) (trace s')"

definition extends :: "byte \<Rightarrow> system \<Rightarrow> system \<Rightarrow> bool" where
  "extends a s s' \<longleftrightarrow>
     trace s' = new_events s s' @ trace s \<and> list_all (addressed a) (new_events s s')"

definition keeps_address :: "system \<Rightarrow> system \<Rightarrow> bool" where
  "keeps_address s s' \<longleftrightarrow>
     device_address s' = device_address s \<and> extends (device_address s) s s'"

fun no_begin :: "call list \<Rightarrow> bool" where
  "no_begin [] = True"
| "no_begin (c # cs) = (\<not> is_begin c \<and> no_begin cs)"

section \<open>Simulated transports\<close>

text \<open>A system on which nothing has happened yet, holding device address \<open>a\<close>.\<close>

definition idle_system :: "byte \<Rightarrow> system" where
  "idle_system a =
     \<lparr>device_address = a, tx_address = 0, tx_buffer = [], rx_buffer = [], trace = []\<rparr>"

text \<open>No device answers: every transmission ends with status 2 (address not acknowledged).\<close>

definition nack_bus :: bus where
  "nack_bus = \<lparr>end_status = (\<lambda>tr. 2), rx_data = (\<lambda>tr. [])\<rparr>"

text \<open>
  A device that acknowledges every transmission and answers a request with \<open>bytes\<close>
  when the transmission before it selected register \<open>reg\<close>, and with nothing otherwise.
\<close>

fun answering_rx :: "byte \<Rightarrow> byte list \<Rightarrow> event list \<Rightarrow> byte list" where
  "answering_rx reg bytes (Request a quantity # Transmit a' (r # payload) # tr) =
     (if r = reg then bytes else [])"
| "answering_rx reg bytes tr = []"

definition answering_bus :: "byte \<Rightarrow> byte list \<Rightarrow> bus" where
  "answering_bus reg bytes = \<lparr>end_status = (\<lambda>tr. 0), rx_data = answering_rx reg bytes\<rparr>"

text \<open>
  A faithful device: it acknowledges every transmission and answers a request for a
  register with the bytes last written to that register of that device.
\<close>

fun last_written :: "byte \<Rightarrow> byte \<Rightarrow> event list \<Rightarrow> byte list" where
  "last_written a r [] = []"
| "last_written a r (Transmit a' (r' # c # payload) # tr) =
     (if a' = a \<and> r' = r then c # payload else last_written a r tr)"
| "last_written a r (e # tr) = last_written a r tr"

fun faithful_rx :: "event list \<Rightarrow> byte list" where
  "faithful_rx (Request a quantity # Transmit a' [r] # tr) =
     (if a' = a then last_written a r tr else [])"
| "faithful_rx tr = []"

definition faithful_bus :: bus where
  "faithful_bus = \<lparr>end_status = (\<lambda>tr. 0), rx_data = faithful_rx\<rparr>"

section \<open>The encodings as the specification words them\<close>

definition big_endian :: "uint16_t \<Rightarrow> byte list" where
  "big_endian v = [ucast (drop_bit 8 v), ucast v]"

definition truncate :: "real \<Rightarrow> int" where
  "truncate x = (if 0 \<le> x then \<lfloor>x\<rfloor> else \<lceil>x\<rceil>)"

text \<open>
  Specification 4.2: humidity is \<open>round(percent_rh * 512)\<close>, temperature is
  \<open>round((celsius - 25.0) * 512)\<close>, each an unsigned 16-bit big-endian value; bytes 0-1
  carry the humidity and bytes 2-3 the temperature.
\<close>

definition spec_environmental_bytes :: "real \<Rightarrow> real \<Rightarrow> byte list" where
  "spec_environmental_bytes temperature humidity =
     big_endian (word_of_int (round (humidity * 512)))
       @ big_endian (word_of_int (round ((temperature - 25) * 512)))"

section \<open>Bus traces of one register transfer\<close>

text \<open>
  The trace after the transmission of a register write, after the transmission that
  selects a register for reading, and after the request that follows the selection.
\<close>

definition transmitted :: "system \<Rightarrow> ccs811_reg_t \<Rightarrow> byte list \<Rightarrow> nat \<Rightarrow> event list" where
  "transmitted s address input len =
     Transmit (device_address s) (reg_value address # map ((!) input) [0..<len]) # trace s"

definition selected :: "system \<Rightarrow> ccs811_reg_t \<Rightarrow> event list" where
  "selected s address = Transmit (device_address s) [reg_value address] # trace s"

definition requested :: "system \<Rightarrow> ccs811_reg_t \<Rightarrow> nat \<Rightarrow> event list" where
  "requested s address len = Request (device_address s) len # selected s address"

section \<open>The register transfers\<close>

lemma write_loop_eq:
  "write_loop i len input s = s\<lparr>tx_buffer := tx_buffer s @ map ((!) input) [i..<len]\<rparr>"
proof (induction i len input s rule: write_loop.induct)
  case (1 i len input s)
  show ?case
  proof (cases "i < len")
    case True
    then show ?thesis
      using "1.IH" [OF True]
      by (subst write_loop.simps) (simp add: Wire_write_def upt_conv_Cons)
  next
    case False
    then show ?thesis by (subst write_loop.simps) simp
  qed
qed

lemma write_register_eq:
  "write_register b input address len s =
     (end_status b (transmitted s address input len) = 0,
      s\<lparr>tx_address := device_address s, tx_buffer := [],
        trace := transmitted s address input len\<rparr>)"
  by (simp add: write_register_def write_loop_eq Wire_beginTransmission_def Wire_write_def
      Wire_endTransmission_def Let_def transmitted_def)

lemma read_loop_snd:
  "snd (read_loop i len out s) = s\<lparr>rx_buffer := drop (len - i) (rx_buffer s)\<rparr>"
proof (induction i len out s rule: read_loop.induct)
  case (1 i len out s)
  show ?case
  proof (cases "i < len \<and> Wire_available s \<noteq> 0")
    case True
    then obtain c cs where rx: "rx_buffer s = c # cs"
      by (cases "rx_buffer s") (auto simp: Wire_available_def)
    have r: "Wire_read s = (uint c, s\<lparr>rx_buffer := cs\<rparr>)"
      by (simp add: Wire_read_def rx)
    have step: "read_loop i len out s = read_loop (i + 1) len (out[i := c]) (s\<lparr>rx_buffer := cs\<rparr>)"
      using True by (subst read_loop.simps) (simp add: r)
    have l: "len - i = Suc (len - (i + 1))" using True by linarith
    show ?thesis
      unfolding step using "1.IH" [OF True r [symmetric] refl refl]
      by (simp add: rx l)
  next
    case False
    then have "read_loop i len out s = (out, s)"
      by (subst read_loop.simps) auto
    moreover have "len - i = 0 \<or> rx_buffer s = []"
      using False by (auto simp: Wire_available_def)
    ultimately show ?thesis by auto
  qed
qed

lemma read_loop_fst:
  "len \<le> length out \<Longrightarrow> i \<le> len \<Longrightarrow>
   fst (read_loop i len out s) =
     take i out @ take (len - i) (rx_buffer s)
       @ drop (i + min (len - i) (length (rx_buffer s))) out"
proof (induction i len out s rule: read_loop.induct)
  case (1 i len out s)
  show ?case
  proof (cases "i < len \<and> Wire_available s \<noteq> 0")
    case True
    then obtain c cs where rx: "rx_buffer s = c # cs"
      by (cases "rx_buffer s") (auto simp: Wire_available_def)
    have r: "Wire_read s = (uint c, s\<lparr>rx_buffer := cs\<rparr>)"
      by (simp add: Wire_read_def rx)
    have step: "read_loop i len out s = read_loop (i + 1) len (out[i := c]) (s\<lparr>rx_buffer := cs\<rparr>)"
      using True by (subst read_loop.simps) (simp add: r)
    have ih: "fst (read_loop (i + 1) len (out[i := c]) (s\<lparr>rx_buffer := cs\<rparr>)) =
       take (i + 1) (out[i := c]) @ take (len - (i + 1)) cs
          @ drop (i + 1 + min (len - (i + 1)) (length cs)) (out[i := c])"
      using "1.IH" [OF True r [symmetric] refl refl] "1.prems" True by simp
    have t: "take (i + 1) (out[i := c]) = take i out @ [c]"
      using True "1.prems" by (simp add: take_Suc_conv_app_nth)
    have l: "len - i = Suc (len - (i + 1))" using True by linarith
    show ?thesis
      unfolding step ih t using True by (simp add: rx l)
  next
    case False
    then have "read_loop i len out s = (out, s)"
      by (subst read_loop.simps) auto
    moreover have "len - i = 0 \<or> rx_buffer s = []"
      using False by (auto simp: Wire_available_def)
    ultimately show ?thesis by auto
  qed
qed

lemma read_register_fails:
  "end_status b (selected s address) \<noteq> 0 \<Longrightarrow>
   read_register b output address len s =
     (False, output,
      s\<lparr>tx_address := device_address s, tx_buffer := [], trace := selected s address\<rparr>)"
  by (simp add: read_register_def Wire_beginTransmission_def Wire_write_def
      Wire_endTransmission_def Let_def selected_def)

lemma read_register_snd:
  "end_status b (selected s address) = 0 \<Longrightarrow>
   snd (snd (read_register b output address len s)) =
     s\<lparr>tx_address := device_address s, tx_buffer := [], rx_buffer := [],
       trace := requested s address len\<rparr>"
  by (simp add: read_register_def Wire_beginTransmission_def Wire_write_def
      Wire_endTransmission_def Wire_requestFrom_def Let_def selected_def requested_def
      split_def read_loop_snd)

lemma read_register_flag:
  "fst (read_register b output address len s) = (end_status b (selected s address) = 0)"
  by (simp add: read_register_def Wire_beginTransmission_def Wire_write_def
      Wire_endTransmission_def Let_def selected_def split_def)

lemma read_register_buffer:
  "end_status b (selected s address) = 0 \<Longrightarrow> len \<le> length output \<Longrightarrow>
   fst (snd (read_register b output address len s)) =
     take len (rx_data b (requested s address len))
       @ drop (min len (length (rx_data b (requested s address len)))) output"
  by (simp add: read_register_def Wire_beginTransmission_def Wire_write_def
      Wire_endTransmission_def Wire_requestFrom_def Let_def selected_def requested_def
      split_def read_loop_fst min.commute)

section \<open>Byte order\<close>

lemma length_swap_loop: "length (swap_loop i n buffer) = length buffer"
proof (induction i n buffer rule: swap_loop.induct)
  case (1 i sz buffer)
  show ?case
  proof (cases "i < sz div 2")
    case True
    then show ?thesis
      using "1.IH" [OF True refl refl refl]
      by (subst swap_loop.simps) (simp add: Let_def)
  next
    case False
    then show ?thesis by (subst swap_loop.simps) simp
  qed
qed

lemma nth_swap_loop:
  "n \<le> length buffer \<Longrightarrow> k < length buffer \<Longrightarrow>
   swap_loop i n buffer ! k =
     (if i \<le> k \<and> k < n - i then buffer ! (n - 1 - k) else buffer ! k)"
proof (induction i n buffer rule: swap_loop.induct)
  case (1 i sz buffer)
  show ?case
  proof (cases "i < sz div 2")
    case True
    let ?b = "buffer[i := buffer ! (sz - 1 - i), sz - 1 - i := buffer ! i]"
    have step: "swap_loop i sz buffer = swap_loop (i + 1) sz ?b"
      using True by (subst swap_loop.simps) (simp add: Let_def)
    have ih: "swap_loop (i + 1) sz ?b ! k =
        (if i + 1 \<le> k \<and> k < sz - (i + 1) then ?b ! (sz - 1 - k) else ?b ! k)"
      using "1.IH" [OF True refl refl refl] "1.prems" by simp
    show ?thesis
      using True "1.prems" unfolding step ih
      by (auto simp: nth_list_update)
  next
    case False
    have "swap_loop i sz buffer = buffer"
      using False by (subst swap_loop.simps) simp
    moreover have "\<not> (i \<le> k \<and> k < sz - i) \<or> sz - 1 - k = k"
      using False by auto
    ultimately show ?thesis by auto
  qed
qed

lemma length_swap_endianess: "length (swap_endianess buffer n) = length buffer"
  by (simp add: swap_endianess_def length_swap_loop)

lemma nth_swap_endianess:
  "n \<le> length buffer \<Longrightarrow> k < length buffer \<Longrightarrow>
   swap_endianess buffer n ! k = (if k < n then buffer ! (n - 1 - k) else buffer ! k)"
  by (simp add: swap_endianess_def nth_swap_loop)

lemma swap_endianess_rev:
  "n \<le> length buffer \<Longrightarrow> swap_endianess buffer n = rev (take n buffer) @ drop n buffer"
  by (rule nth_equalityI)
     (auto simp: length_swap_endianess nth_swap_endianess nth_append rev_nth)

text \<open>
  C6. For every byte buffer and every length \<open>n\<close> within it, reversing the first \<open>n\<close>
  bytes twice restores the buffer, and for odd \<open>n\<close> one reversal leaves the middle byte
  unchanged.
\<close>

theorem swap_endianess_involution:
  assumes "n \<le> length buffer"
  shows "swap_endianess (swap_endianess buffer n) n = buffer
         \<and> (odd n \<longrightarrow> swap_endianess buffer n ! (n div 2) = buffer ! (n div 2))"
proof
  show "swap_endianess (swap_endianess buffer n) n = buffer"
    using assms
    by (intro nth_equalityI) (auto simp: length_swap_endianess nth_swap_endianess)
next
  show "odd n \<longrightarrow> swap_endianess buffer n ! (n div 2) = buffer ! (n div 2)"
  proof
    assume "odd n"
    then obtain m where n: "n = 2 * m + 1" by (auto elim: oddE)
    then have "n div 2 = m" "m < n" "n - 1 - m = m" by simp_all
    with assms show "swap_endianess buffer n ! (n div 2) = buffer ! (n div 2)"
      by (simp add: nth_swap_endianess)
  qed
qed

theorem swap_endianess_involution_witness:
  "swap_endianess (swap_endianess [1, 2, 3, 4, 5] 3) 3 = [1, 2, 3, 4, 5]
   \<and> swap_endianess [1, 2, 3, 4, 5] 3 ! 1 = 2"
  using swap_endianess_involution [of 3 "[1, 2, 3, 4, 5]"] by simp

lemma swap_endianess_pair: "swap_endianess (a # c # xs) 2 = c # a # xs"
  by (simp add: swap_endianess_def swap_loop.simps)

lemma host_uint16_host_bytes: "host_uint16 (host_bytes v @ xs) = v"
  unfolding host_uint16_def host_bytes_def
  by (rule bit_word_eqI) (auto simp: bit_simps)

section \<open>Mode-control commands\<close>

lemma write_application_erase_sent:
  "write_application_erase b n sequence s =
     (end_status b
        (Transmit (device_address s) (0xF1 # map ((!) sequence) [0..<n]) # trace s) = 0,
      s\<lparr>tx_address := device_address s, tx_buffer := [],
        trace := Transmit (device_address s) (0xF1 # map ((!) sequence) [0..<n]) # trace s\<rparr>)"
  by (simp add: write_application_erase_def write_register_eq transmitted_def)

lemma reset_sequence_sent:
  "trace (snd (reset b s)) =
     Transmit (device_address s) [0xFF, 0x11, 0xE5, 0x72, 0x8A] # trace s
   \<and> fst (reset b s) =
     (end_status b (Transmit (device_address s) [0xFF, 0x11, 0xE5, 0x72, 0x8A] # trace s) = 0)"
  by (simp add: reset_def write_reset_def write_register_eq transmitted_def
      CCS811_RESET_SEQUENCE_def upt_conv_Cons Let_def)

lemma start_application_erase_32_bit:
  "trace (snd (start_application_erase b 4 s)) =
     Transmit (device_address s) [0xF1, 0xE7, 0xA7, 0xE6, 0x09] # trace s
   \<and> fst (start_application_erase b 4 s) =
     (end_status b (Transmit (device_address s) [0xF1, 0xE7, 0xA7, 0xE6, 0x09] # trace s) = 0)"
  by (simp add: start_application_erase_def write_application_erase_sent
      CCS811_APPLICATION_ERASE_SEQUENCE_def upt_conv_Cons Let_def)

text \<open>
  C5. On a target with two-byte pointers (AVR) \<open>write(ccs811_application_erase_t)\<close>
  sends the register byte 0xF1 and only the first two bytes of whatever array it is
  given, so \<open>start_application_erase\<close> sends 0xE7, 0xA7 and not the four-byte sequence
  0xE7, 0xA7, 0xE6, 0x09; the result is still true if and only if the bus reports
  status 0.
\<close>

theorem start_application_erase_sends_pointer_size:
  "trace (snd (write_application_erase b 2 sequence s)) =
     Transmit (device_address s) [0xF1, sequence ! 0, sequence ! 1] # trace s
   \<and> trace (snd (start_application_erase b 2 s)) =
     Transmit (device_address s) [0xF1, 0xE7, 0xA7] # trace s
   \<and> fst (start_application_erase b 2 s) =
     (end_status b (Transmit (device_address s) [0xF1, 0xE7, 0xA7] # trace s) = 0)"
  by (simp add: start_application_erase_def write_application_erase_sent
      CCS811_APPLICATION_ERASE_SEQUENCE_def upt_conv_Cons Let_def)

section \<open>The private register read\<close>

text \<open>
  C8. When the transmission that selects the register is not acknowledged (status other
  than 0), the private read returns false and the caller's buffer is unchanged.
\<close>

theorem read_register_failure_keeps_buffer:
  assumes "end_status b (Transmit (device_address s) [reg_value address] # trace s) \<noteq> 0"
  shows "fst (read_register b output address len s) = False
         \<and> fst (snd (read_register b output address len s)) = output"
  using assms read_register_fails [of b s address "output" len]
  by (simp add: selected_def)

theorem read_register_failure_keeps_buffer_witness:
  "end_status nack_bus
     (Transmit (device_address (idle_system 0x5A)) [reg_value HW_ID] # trace (idle_system 0x5A)) \<noteq> 0
   \<and> fst (read_register nack_bus [0xAA, 0xBB] HW_ID 2 (idle_system 0x5A)) = False
   \<and> fst (snd (read_register nack_bus [0xAA, 0xBB] HW_ID 2 (idle_system 0x5A))) = [0xAA, 0xBB]"
  using read_register_failure_keeps_buffer
    [of nack_bus "idle_system 0x5A" HW_ID "[0xAA, 0xBB]" 2]
  by (simp add: nack_bus_def)

text \<open>
  C9. When the selecting transmission is acknowledged the private read returns true,
  whatever the bus delivers: the delivered bytes (at most \<open>len\<close>) overwrite a prefix of
  the buffer and the bytes behind that prefix keep their values.
\<close>

theorem read_register_short_delivery:
  assumes "end_status b (Transmit (device_address s) [reg_value address] # trace s) = 0"
    and "len \<le> length output"
  shows "fst (read_register b output address len s) = True
         \<and> fst (snd (read_register b output address len s)) =
             take len (rx_data b (Request (device_address s) len
                # Transmit (device_address s) [reg_value address] # trace s))
             @ drop (length (take len (rx_data b (Request (device_address s) len
                # Transmit (device_address s) [reg_value address] # trace s)))) output"
  using assms read_register_flag [of b "output" address len s]
    read_register_buffer [of b s address len "output"]
  by (simp add: selected_def requested_def min.commute)

theorem read_register_short_delivery_witness:
  "end_status (answering_bus 0x02 [0x01])
     (Transmit (device_address (idle_system 0x5A)) [reg_value ALG_RESULT_DATA]
        # trace (idle_system 0x5A)) = 0
   \<and> fst (read_register (answering_bus 0x02 [0x01]) [0xAA, 0xBB] ALG_RESULT_DATA 2
          (idle_system 0x5A)) = True
   \<and> fst (snd (read_register (answering_bus 0x02 [0x01]) [0xAA, 0xBB] ALG_RESULT_DATA 2
          (idle_system 0x5A))) = [0x01, 0xBB]"
  using read_register_short_delivery
    [of "answering_bus 0x02 [0x01]" "idle_system 0x5A" ALG_RESULT_DATA 2 "[0xAA, 0xBB]"]
  by (simp add: answering_bus_def idle_system_def)

section \<open>Measurement getters\<close>

lemma read_register_full:
  assumes "end_status b (selected s address) = 0"
    and "length output = len"
    and "length (rx_data b (requested s address len)) = len"
  shows "read_register b output address len s =
     (True, rx_data b (requested s address len),
      s\<lparr>tx_address := device_address s, tx_buffer := [], rx_buffer := [],
        trace := requested s address len\<rparr>)"
proof -
  have "fst (read_register b output address len s) = True"
    using assms by (simp add: read_register_flag)
  moreover have "fst (snd (read_register b output address len s)) =
      rx_data b (requested s address len)"
    using assms by (simp add: read_register_buffer)
  moreover note read_register_snd [OF assms(1), of "output" len]
  ultimately show ?thesis
    by (simp add: prod_eq_iff)
qed

lemma get_eCO2_delivered:
  assumes "end_status b (selected s ALG_RESULT_DATA) = 0"
    and "length data = 2"
    and "rx_data b (requested s ALG_RESULT_DATA 2) = [c0, c1]"
  shows "fst (get_eCO2 b data s) = push_bit 8 (ucast c1) OR ucast c0"
proof -
  have "read_register b data ALG_RESULT_DATA 2 s =
     (True, [c0, c1],
      s\<lparr>tx_address := device_address s, tx_buffer := [], rx_buffer := [],
        trace := requested s ALG_RESULT_DATA 2\<rparr>)"
    using read_register_full [of b s ALG_RESULT_DATA data 2] assms by simp
  then show ?thesis
    by (simp add: get_eCO2_def read_eCO2_data_def total_def host_uint16_def)
qed

text \<open>
  C1. The device delivers 0x01, 0x2C for \<open>ALG_RESULT_DATA\<close>. \<open>get_eCO2\<close> stores the
  bytes in wire order and returns the host's 16-bit view of them: the first byte
  received becomes the least significant byte, and the result is 0x2C01 = 11265.
\<close>

theorem get_eCO2_returns_host_order:
  "fst (get_eCO2 (answering_bus 0x02 [0x01, 0x2C])
          [0, 0] (idle_system CCS811_DEFAULT_I2C_ADDRESS)) = 11265"
  by (subst get_eCO2_delivered [where ?c0.0 = "0x01" and ?c1.0 = "0x2C"])
     (simp_all add: answering_bus_def selected_def requested_def)

section \<open>\<open>comms_check\<close>\<close>

lemma read_hardware_id_unanswered:
  "end_status b (selected s HW_ID) \<noteq> 0 \<Longrightarrow>
   read_hardware_id b hwid s =
     (False, hwid,
      s\<lparr>tx_address := device_address s, tx_buffer := [], trace := selected s HW_ID\<rparr>)"
  by (simp add: read_hardware_id_def read_byte_def read_register_fails)

lemma comms_check_loop_unanswered:
  "\<forall>tr. end_status b tr \<noteq> 0 \<Longrightarrow> fst (comms_check_loop b success retries hwid s) = hwid"
proof (induction b success retries hwid s rule: comms_check_loop.induct)
  case (1 b success retries hwid s)
  show ?case
  proof (cases "\<not> success \<and> retries < 10")
    case True
    have r: "read_hardware_id b hwid s =
       (False, hwid,
        s\<lparr>tx_address := device_address s, tx_buffer := [], trace := selected s HW_ID\<rparr>)"
      using "1.prems" by (simp add: read_hardware_id_unanswered)
    show ?thesis
      using True "1.IH" [OF True r [symmetric] refl refl refl] "1.prems"
      by (subst comms_check_loop.simps) (simp add: r)
  next
    case False
    then show ?thesis by (subst comms_check_loop.simps) auto
  qed
qed

lemma comms_check_unanswered:
  "\<forall>tr. end_status b tr \<noteq> 0 \<Longrightarrow>
   fst (comms_check b hwid s) = (hwid = CCS811_HARDWARE_ID)"
  using comms_check_loop_unanswered [of b]
  by (simp add: comms_check_def split_def Let_def read_hardware_id_unanswered)

lemma comms_check_first_attempt:
  assumes "end_status b (selected s HW_ID) = 0"
    and "rx_data b (requested s HW_ID 1) = c # cs"
  shows "comms_check b hwid s =
     (c = CCS811_HARDWARE_ID,
      s\<lparr>tx_address := device_address s, tx_buffer := [], rx_buffer := [],
        trace := requested s HW_ID 1\<rparr>)"
proof -
  let ?s = "s\<lparr>tx_address := device_address s, tx_buffer := [], rx_buffer := [],
        trace := requested s HW_ID 1\<rparr>"
  have "read_register b [hwid] HW_ID 1 s = (True, [c], ?s)"
    using read_register_full [of b s HW_ID "[hwid]" 1] read_register_buffer [of b s HW_ID 1 "[hwid]"]
      read_register_flag [of b "[hwid]" HW_ID 1 s] read_register_snd [of b s HW_ID "[hwid]" 1] assms
    by (simp add: prod_eq_iff)
  then have r: "read_hardware_id b hwid s = (True, c, ?s)"
    by (simp add: read_hardware_id_def read_byte_def)
  have l: "comms_check_loop b True 0 c ?s = (c, ?s)"
    by (subst comms_check_loop.simps) simp
  show ?thesis
    using l by (simp add: comms_check_def r)
qed

lemma comms_check_loop_retries:
  "\<forall>tr. end_status b tr \<noteq> 0 \<Longrightarrow> retries \<le> 10 \<Longrightarrow>
   trace (snd (comms_check_loop b False retries hwid s)) =
     concat (replicate (10 - retries) [Delay 10, Transmit (device_address s) [0x20]]) @ trace s
   \<and> device_address (snd (comms_check_loop b False retries hwid s)) = device_address s"
proof (induction "10 - retries" arbitrary: retries s)
  case 0
  then have "retries = 10" by simp
  then show ?case by (subst (1 2) comms_check_loop.simps) simp
next
  case (Suc n)
  then have lt: "retries < 10" by simp
  let ?s = "delay 10 (s\<lparr>tx_address := device_address s, tx_buffer := [],
      trace := selected s HW_ID\<rparr>)"
  have step: "comms_check_loop b False retries hwid s =
      comms_check_loop b False (retries + 1) hwid ?s"
    using lt Suc.prems(1)
    by (subst comms_check_loop.simps) (simp add: read_hardware_id_unanswered)
  have n: "n = 10 - (retries + 1)" using Suc.hyps(2) by simp
  have r: "10 - retries = Suc (10 - (retries + 1))" using lt by simp
  have ih: "trace (snd (comms_check_loop b False (retries + 1) hwid ?s)) =
     concat (replicate (10 - (retries + 1)) [Delay 10, Transmit (device_address ?s) [0x20]])
       @ trace ?s
   \<and> device_address (snd (comms_check_loop b False (retries + 1) hwid ?s)) = device_address ?s"
    using Suc.hyps(1) [OF n Suc.prems(1)] lt by simp
  show ?case
    unfolding step r using ih
    by (simp add: delay_def selected_def replicate_append_same [symmetric])
qed

lemma comms_check_unanswered_trace:
  assumes "\<forall>tr. end_status b tr \<noteq> 0"
  shows "trace (snd (comms_check b hwid s)) =
     concat (replicate 10 [Delay 10, Transmit (device_address s) [0x20]])
       @ Transmit (device_address s) [0x20] # trace s"
proof -
  let ?s = "s\<lparr>tx_address := device_address s, tx_buffer := [], trace := selected s HW_ID\<rparr>"
  have r: "read_hardware_id b hwid s = (False, hwid, ?s)"
    using assms by (simp add: read_hardware_id_unanswered)
  have "trace (snd (comms_check_loop b False 0 hwid ?s)) =
     concat (replicate (10 - 0) [Delay 10, Transmit (device_address ?s) [0x20]]) @ trace ?s"
    using comms_check_loop_retries [OF assms, of 0 hwid ?s] by simp
  then show ?thesis
    by (simp add: comms_check_def r split_def selected_def Let_def)
qed

text \<open>
  C3. No device answers, and the uninitialised local \<open>id\<close> holds 0x81 on entry (as it
  can when an earlier call left that byte in the same stack slot). \<open>comms_check\<close> makes
  eleven attempts to select \<open>HW_ID\<close> with a delay of 10 ms after each of the ten retries;
  all fail, none writes \<open>id\<close>, and \<open>comms_check\<close> returns true.
\<close>

theorem comms_check_true_without_device:
  "fst (comms_check nack_bus 0x81 (idle_system CCS811_DEFAULT_I2C_ADDRESS)) = True
   \<and> trace (snd (comms_check nack_bus 0x81 (idle_system CCS811_DEFAULT_I2C_ADDRESS))) =
       concat (replicate 10 [Delay 10, Transmit 0x5A [0x20]]) @ [Transmit 0x5A [0x20]]"
proof -
  have n: "\<forall>tr. end_status nack_bus tr \<noteq> 0"
    by (simp add: nack_bus_def)
  have "fst (comms_check nack_bus 0x81 (idle_system CCS811_DEFAULT_I2C_ADDRESS)) =
      (0x81 = CCS811_HARDWARE_ID)"
    using n by (rule comms_check_unanswered)
  moreover have "trace (snd (comms_check nack_bus 0x81 (idle_system CCS811_DEFAULT_I2C_ADDRESS))) =
      concat (replicate 10
        [Delay 10, Transmit (device_address (idle_system CCS811_DEFAULT_I2C_ADDRESS)) [0x20]])
      @ Transmit (device_address (idle_system CCS811_DEFAULT_I2C_ADDRESS)) [0x20]
      # trace (idle_system CCS811_DEFAULT_I2C_ADDRESS)"
    using n by (rule comms_check_unanswered_trace)
  ultimately show ?thesis
    by (simp add: CCS811_HARDWARE_ID_def idle_system_def CCS811_DEFAULT_I2C_ADDRESS_def)
qed

section \<open>CO2 thresholds\<close>

lemma length_host_bytes: "length (host_bytes v) = 2"
  by (simp add: host_bytes_def)

lemma swap_both_fields:
  "swap_endianess_at 2 (swap_endianess_at 0 [a0, a1, a2, a3] 2) 2 = [a1, a0, a3, a2]"
  by (simp add: swap_endianess_at_def swap_endianess_pair)

lemma write_register_4:
  "write_register b [a0, a1, a2, a3] address 4 s =
     (end_status b (Transmit (device_address s) [reg_value address, a0, a1, a2, a3] # trace s) = 0,
      s\<lparr>tx_address := device_address s, tx_buffer := [],
        trace := Transmit (device_address s) [reg_value address, a0, a1, a2, a3] # trace s\<rparr>)"
  by (simp add: write_register_eq transmitted_def upt_conv_Cons)

lemma write_co2_thresholds_eq:
  "write_co2_thresholds b low high s =
     (end_status b
        (Transmit (device_address s) (0x10 # big_endian low @ big_endian high) # trace s) = 0,
      s\<lparr>tx_address := device_address s, tx_buffer := [],
        trace := Transmit (device_address s) (0x10 # big_endian low @ big_endian high) # trace s\<rparr>)"
  by (simp add: write_co2_thresholds_def write_co2_thresholds_t_def host_bytes_def
      big_endian_def swap_both_fields write_register_4)

lemma read_co2_thresholds_written:
  assumes "length thresholds = 4"
    and "trace s = Transmit (device_address s) (0x10 # big_endian low @ big_endian high) # tr"
  shows "fst (read_co2_thresholds faithful_bus thresholds s) = True
     \<and> fst (snd (read_co2_thresholds faithful_bus thresholds s)) = host_bytes low @ host_bytes high"
proof -
  have e: "end_status faithful_bus (selected s THRESHOLDS) = 0"
    by (simp add: faithful_bus_def)
  have d: "rx_data faithful_bus (requested s THRESHOLDS 4) = big_endian low @ big_endian high"
    using assms(2)
    by (simp add: faithful_bus_def requested_def selected_def big_endian_def)
  have "read_register faithful_bus thresholds THRESHOLDS 4 s =
     (True, big_endian low @ big_endian high,
      s\<lparr>tx_address := device_address s, tx_buffer := [], rx_buffer := [],
        trace := requested s THRESHOLDS 4\<rparr>)"
    using read_register_full [of faithful_bus s THRESHOLDS thresholds 4] e d assms(1)
    by (simp add: big_endian_def)
  then show ?thesis
    by (simp add: read_co2_thresholds_def big_endian_def host_bytes_def swap_both_fields)
qed

text \<open>
  C7. For thresholds \<open>low < high\<close>, \<open>write_co2_thresholds\<close> followed by a read of the
  thresholds register over a faithful device succeeds both times and yields \<open>low\<close> and
  \<open>high\<close> again, whatever the four-byte container held before the read.
\<close>

theorem thresholds_round_trip:
  assumes "low < high"
    and "length thresholds = 4"
    and "write_co2_thresholds faithful_bus low high s = (written, s1)"
    and "read_co2_thresholds faithful_bus thresholds s1 = (success, thresholds', s2)"
  shows "written \<and> success \<and> low_limit thresholds' = low \<and> high_limit thresholds' = high"
proof -
  have w: "written"
    and t: "trace s1 =
      Transmit (device_address s1) (0x10 # big_endian low @ big_endian high) # trace s"
    using assms(3) by (auto simp: write_co2_thresholds_eq faithful_bus_def)
  have "success \<and> thresholds' = host_bytes low @ host_bytes high"
    using read_co2_thresholds_written [OF assms(2) t] assms(4) by simp
  moreover have "host_uint16 (host_bytes high) = high"
    using host_uint16_host_bytes [of high "[]"] by simp
  ultimately show ?thesis
    using w by (simp add: low_limit_def high_limit_def host_uint16_host_bytes length_host_bytes)
qed

theorem thresholds_round_trip_witness:
  "(400 :: uint16_t) < 1000
   \<and> fst (write_co2_thresholds faithful_bus 400 1000 (idle_system 0x5A))
   \<and> fst (read_co2_thresholds faithful_bus [0, 0, 0, 0]
         (snd (write_co2_thresholds faithful_bus 400 1000 (idle_system 0x5A))))
   \<and> low_limit (fst (snd (read_co2_thresholds faithful_bus [0, 0, 0, 0]
         (snd (write_co2_thresholds faithful_bus 400 1000 (idle_system 0x5A)))))) = 400
   \<and> high_limit (fst (snd (read_co2_thresholds faithful_bus [0, 0, 0, 0]
         (snd (write_co2_thresholds faithful_bus 400 1000 (idle_system 0x5A)))))) = 1000"
proof -
  let ?w = "write_co2_thresholds faithful_bus 400 1000 (idle_system 0x5A)"
  let ?r = "read_co2_thresholds faithful_bus [0, 0, 0, 0] (snd ?w)"
  show ?thesis
    using thresholds_round_trip [of 400 1000 "[0, 0, 0, 0]" "idle_system 0x5A"
        "fst ?w" "snd ?w" "fst ?r" "fst (snd ?r)" "snd (snd ?r)"]
    by simp
qed

section \<open>Environmental data\<close>

lemma float_to_uint16_defined:
  "- 1 < x \<Longrightarrow> x < 65536 \<Longrightarrow> float_to_uint16 x = Inr (word_of_int (truncate x))"
  by (simp add: float_to_uint16_def truncate_def)

lemma float_to_uint16_undefined:
  "x \<le> - 1 \<or> 65536 \<le> x \<Longrightarrow> float_to_uint16 x = Inl Undefined_conversion"
  by (auto simp: float_to_uint16_def)

lemma swap_both_fields_env:
  "swap_endianess_at 0 (swap_endianess_at 2 [a0, a1, a2, a3] 2) 2 = [a1, a0, a3, a2]"
  by (simp add: swap_endianess_at_def swap_endianess_pair)

text \<open>
  C4, as the code has it. When both products lie strictly between -1 and 65536,
  \<open>write_environmental_data\<close> sends four bytes to \<open>ENV_DATA\<close> (0x05): bytes 0-1 hold
  \<open>humidity * 512\<close> truncated towards zero and bytes 2-3 hold \<open>(temperature - 25) * 512\<close>
  truncated towards zero, each as an unsigned 16-bit big-endian value. The result is
  true if and only if the bus reports status 0.
\<close>

theorem write_environmental_data_truncates:
  assumes "- 1 < (temperature - 25) * 512" and "(temperature - 25) * 512 < 65536"
    and "- 1 < humidity * 512" and "humidity * 512 < 65536"
  shows "write_environmental_data b temperature humidity s =
     Inr (end_status b
            (Transmit (device_address s)
               (0x05 # big_endian (word_of_int (truncate (humidity * 512)))
                  @ big_endian (word_of_int (truncate ((temperature - 25) * 512))))
             # trace s) = 0,
          s\<lparr>tx_address := device_address s, tx_buffer := [],
            trace := Transmit (device_address s)
               (0x05 # big_endian (word_of_int (truncate (humidity * 512)))
                  @ big_endian (word_of_int (truncate ((temperature - 25) * 512))))
             # trace s\<rparr>)"
  using assms
  by (simp add: write_environmental_data_def float_to_uint16_defined host_bytes_def
      swap_both_fields_env write_environmental_data_t_def write_register_4 big_endian_def)

theorem write_environmental_data_truncates_witness:
  "write_environmental_data nack_bus 26 (102403 / 2048) (idle_system 0x5A) =
     Inr (False,
          \<lparr>device_address = 0x5A, tx_address = 0x5A, tx_buffer = [], rx_buffer = [],
            trace = [Transmit 0x5A [0x05, 0x64, 0x00, 0x02, 0x00]]\<rparr>)"
  using write_environmental_data_truncates [of 26 "102403 / 2048" nack_bus "idle_system 0x5A"]
  by (simp add: big_endian_def truncate_def idle_system_def nack_bus_def)

text \<open>
  C4, as the specification words it, fails for a humidity of 50.00146484375 percent
  (102403 / 2048, a binary32 value) at 25 degrees: \<open>humidity * 512 = 25600.75\<close>, which
  rounds to 25601 = 0x6401, and the driver sends 25600 = 0x6400.
\<close>

theorem write_environmental_data_not_rounded:
  "write_environmental_data (answering_bus 0x00 []) 25 (102403 / 2048) (idle_system 0x5A) =
     Inr (True,
          \<lparr>device_address = 0x5A, tx_address = 0x5A, tx_buffer = [], rx_buffer = [],
            trace = [Transmit 0x5A [0x05, 0x64, 0x00, 0x00, 0x00]]\<rparr>)
   \<and> spec_environmental_bytes 25 (102403 / 2048) = [0x64, 0x01, 0x00, 0x00]"
  by (simp add: write_environmental_data_def float_to_uint16_def host_bytes_def
      swap_both_fields_env write_environmental_data_t_def write_register_4
      spec_environmental_bytes_def big_endian_def round_def idle_system_def answering_bus_def)

section \<open>Reporting of transfer failures\<close>







lemmas typed_read_defs =
  read_byte_def read_status_def read_measure_config_def read_co2_thresholds_def
  read_eCO2_data_def read_eTVOC_data_def read_raw_data_def read_air_quality_data_def
  read_all_data_def read_baseline_def read_hardware_id_def read_hardware_version_def
  read_firmware_boot_version_def read_firmware_application_version_def read_error_def

lemmas typed_write_defs =
  write_byte_def write_measure_config_def write_environmental_data_t_def
  write_co2_thresholds_t_def write_baseline_def write_application_data_def
  write_application_verify_def write_application_start_def write_application_erase_def
  write_reset_def

lemmas command_defs =
  write_co2_thresholds_def reset_def start_application_erase_def
  start_application_verify_def start_application_mode_def








section \<open>The stored device address\<close>

lemma extendsI:
  assumes "trace s' = evs @ trace s" and "list_all (addressed a) evs"
  shows "extends a s s'"
proof -
  have "new_events s s' = evs"
    using assms(1) by (simp add: new_events_def)
  then show ?thesis
    using assms by (simp add: extends_def)
qed

lemma extends_refl: "extends a s s"
  by (rule extendsI [of _ "[]"]) simp_all

lemma extends_trans:
  assumes "extends a s s'" and "extends a s' s''"
  shows "extends a s s''"
proof (rule extendsI)
  show "trace s'' = (new_events s' s'' @ new_events s s') @ trace s"
    using assms by (simp add: extends_def)
  show "list_all (addressed a) (new_events s' s'' @ new_events s s')"
    using assms by (simp add: extends_def)
qed

lemma extends_same_trace: "trace s0 = trace s \<Longrightarrow> extends a s0 s' = extends a s s'"
  by (simp add: extends_def new_events_def)

lemma keeps_address_refl: "keeps_address s s"
  by (simp add: keeps_address_def extends_refl)

lemma keeps_address_trans:
  "keeps_address s s' \<Longrightarrow> keeps_address s' s'' \<Longrightarrow> keeps_address s s''"
  by (auto simp: keeps_address_def intro: extends_trans)

lemma keeps_address_write_register:
  "keeps_address s (snd (write_register b input address len s))"
  unfolding keeps_address_def
proof
  show "device_address (snd (write_register b input address len s)) = device_address s"
    by (simp add: write_register_eq)
  show "extends (device_address s) s (snd (write_register b input address len s))"
    by (rule extendsI [of _ "[Transmit (device_address s)
          (reg_value address # map ((!) input) [0..<len])]"])
       (simp_all add: write_register_eq transmitted_def)
qed

lemma keeps_address_read_register:
  "keeps_address s (snd (snd (read_register b output address len s)))"
proof (cases "end_status b (selected s address) = 0")
  case True
  have "extends (device_address s) s (snd (snd (read_register b output address len s)))"
    by (rule extendsI [of _ "[Request (device_address s) len,
          Transmit (device_address s) [reg_value address]]"])
       (simp_all add: read_register_snd [OF True] requested_def selected_def)
  then show ?thesis
    by (simp add: keeps_address_def read_register_snd [OF True])
next
  case False
  have "extends (device_address s) s (snd (snd (read_register b output address len s)))"
    by (rule extendsI [of _ "[Transmit (device_address s) [reg_value address]]"])
       (simp_all add: read_register_fails [OF False] selected_def)
  then show ?thesis
    by (simp add: keeps_address_def read_register_fails [OF False])
qed

lemma keeps_address_delay: "keeps_address s (delay ms s)"
  unfolding keeps_address_def
  by (intro conjI extendsI [of _ "[Delay ms]"]) (simp_all add: delay_def)

lemma typed_read_keeps:
  shows "keeps_address s (snd (snd (read_status b x s)))"
    and "keeps_address s (snd (snd (read_measure_config b x s)))"
    and "keeps_address s (snd (snd (read_co2_thresholds b xs s)))"
    and "keeps_address s (snd (snd (read_eCO2_data b xs s)))"
    and "keeps_address s (snd (snd (read_eTVOC_data b xs s)))"
    and "keeps_address s (snd (snd (read_raw_data b xs s)))"
    and "keeps_address s (snd (snd (read_air_quality_data b xs s)))"
    and "keeps_address s (snd (snd (read_all_data b xs s)))"
    and "keeps_address s (snd (snd (read_baseline b xs s)))"
    and "keeps_address s (snd (snd (read_hardware_id b x s)))"
    and "keeps_address s (snd (snd (read_hardware_version b x s)))"
    and "keeps_address s (snd (snd (read_firmware_boot_version b xs s)))"
    and "keeps_address s (snd (snd (read_firmware_application_version b xs s)))"
    and "keeps_address s (snd (snd (read_error b x s)))"
  by (simp_all add: typed_read_defs split_def Let_def keeps_address_read_register)

lemma typed_write_keeps:
  shows "keeps_address s (snd (write_measure_config b x s))"
    and "keeps_address s (snd (write_environmental_data_t b xs s))"
    and "keeps_address s (snd (write_co2_thresholds_t b xs s))"
    and "keeps_address s (snd (write_baseline b xs s))"
    and "keeps_address s (snd (write_application_data b xs s))"
    and "keeps_address s (snd (write_application_verify b x s))"
    and "keeps_address s (snd (write_application_start b x s))"
    and "keeps_address s (snd (write_co2_thresholds b lo hi s))"
    and "keeps_address s (snd (reset b s))"
    and "keeps_address s (snd (start_application_erase b n s))"
    and "keeps_address s (snd (start_application_verify b x s))"
    and "keeps_address s (snd (start_application_mode b x s))"
  by (simp_all add: typed_write_defs command_defs Let_def keeps_address_write_register)

lemma getters_keep:
  shows "keeps_address s (snd (get_eCO2 b xs s))"
    and "keeps_address s (snd (get_eTVOC b xs s))"
  using typed_read_keeps(4) [of s b xs] typed_read_keeps(5) [of s b xs]
  by (simp_all add: get_eCO2_def get_eTVOC_def split_def Let_def)

lemma write_environmental_data_keeps:
  assumes "write_environmental_data b t h s = Inr (r, s')"
  shows "keeps_address s s'"
proof -
  obtain xs where "write_environmental_data_t b xs s = (r, s')"
    using assms by (auto simp: write_environmental_data_def Let_def split: sum.splits)
  then have "s' = snd (write_environmental_data_t b xs s)"
    by simp
  then show ?thesis
    by (simp add: typed_write_keeps(2))
qed

lemma comms_check_loop_keeps:
  "keeps_address s (snd (comms_check_loop b success retries hwid s))"
proof (induction b success retries hwid s rule: comms_check_loop.induct)
  case (1 b success retries hwid s)
  show ?case
  proof (cases "\<not> success \<and> retries < 10")
    case True
    let ?r = "read_hardware_id b hwid s"
    let ?s = "delay 10 (snd (snd ?r))"
    have step: "comms_check_loop b success retries hwid s =
        comms_check_loop b (fst ?r) (retries + 1) (fst (snd ?r)) ?s"
      using True by (subst comms_check_loop.simps) (simp add: split_def Let_def)
    have "keeps_address s ?s"
      using typed_read_keeps(10) [of s b hwid] keeps_address_delay [of "snd (snd ?r)" 10]
      by (rule keeps_address_trans)
    moreover have "keeps_address ?s
        (snd (comms_check_loop b (fst ?r) (retries + 1) (fst (snd ?r)) ?s))"
      using "1.IH" [OF True refl prod.collapse prod.collapse refl refl] .
    ultimately show ?thesis
      unfolding step by (rule keeps_address_trans)
  next
    case False
    then show ?thesis
      by (subst comms_check_loop.simps) (auto simp: keeps_address_refl)
  qed
qed

lemma comms_check_keeps: "keeps_address s (snd (comms_check b hwid s))"
proof -
  let ?r = "read_hardware_id b hwid s"
  have "snd (comms_check b hwid s) =
      snd (comms_check_loop b (fst ?r) 0 (fst (snd ?r)) (snd (snd ?r)))"
    by (simp add: comms_check_def split_def Let_def)
  moreover have "keeps_address s (snd (snd ?r))"
    by (rule typed_read_keeps(10))
  ultimately show ?thesis
    using comms_check_loop_keeps keeps_address_trans by metis
qed

lemma begin_ccs811_stores:
  "device_address (snd (begin_ccs811 b a hwid s)) = a
   \<and> extends a s (snd (begin_ccs811 b a hwid s))"
  using comms_check_keeps [of "s\<lparr>device_address := a\<rparr>" b hwid]
    extends_same_trace [of "s\<lparr>device_address := a\<rparr>" s a]
  by (simp add: begin_ccs811_def keeps_address_def)

lemma flag_of_read_Inr:
  "flag_of_read p = Inr (r, s') \<longleftrightarrow> r = Flag (fst p) \<and> s' = snd (snd p)"
  by (auto simp: flag_of_read_def split_def)

lemma flag_of_write_Inr:
  "flag_of_write p = Inr (r, s') \<longleftrightarrow> r = Flag (fst p) \<and> s' = snd p"
  by (auto simp: flag_of_write_def split_def)

lemma scalar_of_Inr:
  "scalar_of p = Inr (r, s') \<longleftrightarrow> r = Scalar (fst p) \<and> s' = snd p"
  by (auto simp: scalar_of_def split_def)

lemma perform_keeps:
  assumes "perform b c s = Inr (r, s')" and "\<not> is_begin c"
  shows "keeps_address s s'"
proof (cases c)
  case (Write_environmental_data t h)
  then obtain p where "write_environmental_data b t h s = Inr p" and "flag_of_write p = Inr (r, s')"
    using assms(1) by (auto split: sum.splits)
  then show ?thesis
    using write_environmental_data_keeps [of b t h s "fst p" "snd p"]
    by (simp add: flag_of_write_Inr)
next
  case (Begin a hwid)
  then show ?thesis using assms(2) by simp
qed (use assms(1) in \<open>simp_all add: flag_of_read_Inr flag_of_write_Inr scalar_of_Inr
      typed_read_keeps typed_write_keeps getters_keep comms_check_keeps\<close>)

lemma perform_begin:
  assumes "perform b (Begin a hwid) s = Inr (r, s')"
  shows "device_address s' = a \<and> extends a s s'"
  using assms begin_ccs811_stores [of b a hwid s]
  by (simp add: flag_of_write_Inr)

lemma perform_all_keeps:
  "perform_all b cs s = Inr s' \<Longrightarrow> no_begin cs \<Longrightarrow> keeps_address s s'"
proof (induction cs arbitrary: s)
  case Nil
  then show ?case by (simp add: keeps_address_refl)
next
  case (Cons c cs)
  from Cons.prems(1) obtain r s1 where p: "perform b c s = Inr (r, s1)"
    and rest: "perform_all b cs s1 = Inr s'"
    by (auto split: sum.splits)
  have "keeps_address s s1"
    using p Cons.prems(2) by (auto intro: perform_keeps)
  moreover have "keeps_address s1 s'"
    using Cons.IH [OF rest] Cons.prems(2) by simp
  ultimately show ?case
    by (rule keeps_address_trans)
qed

text \<open>
  C10. A call other than \<open>begin\<close> leaves the stored device address unchanged and
  \<open>begin(a)\<close> stores \<open>a\<close>; every bus transaction of a call goes to the address stored
  when the call returns. So after \<open>begin(a)\<close> and any further calls other than \<open>begin\<close>,
  the stored address is \<open>a\<close> and every transaction since went to \<open>a\<close>.
\<close>

theorem device_address_frame:
  "(perform b c s = Inr (r, s') \<longrightarrow>
      (\<not> is_begin c \<longrightarrow> device_address s' = device_address s)
      \<and> (c = Begin a hwid \<longrightarrow> device_address s' = a)
      \<and> extends (device_address s') s s')
   \<and> (perform_all b (Begin a hwid # cs) s = Inr s'' \<and> no_begin cs \<longrightarrow>
      device_address s'' = a \<and> extends a s s'')"
proof (intro conjI impI)
  assume p: "perform b c s = Inr (r, s')"
  show "device_address s' = device_address s" if "\<not> is_begin c"
    using perform_keeps [OF p that] by (simp add: keeps_address_def)
  show "device_address s' = a" if "c = Begin a hwid"
    using perform_begin [of b a hwid s r s'] p that by simp
  show "extends (device_address s') s s'"
  proof (cases "is_begin c")
    case True
    then obtain a' hwid' where "c = Begin a' hwid'" by (cases c) simp_all
    then show ?thesis
      using perform_begin [of b a' hwid' s r s'] p by simp
  next
    case False
    then show ?thesis
      using perform_keeps [OF p False] by (simp add: keeps_address_def)
  qed
next
  assume "perform_all b (Begin a hwid # cs) s = Inr s'' \<and> no_begin cs"
  then obtain r s1 where p: "perform b (Begin a hwid) s = Inr (r, s1)"
    and rest: "perform_all b cs s1 = Inr s''" and nb: "no_begin cs"
    by (auto split: sum.splits)
  have b: "device_address s1 = a" "extends a s s1"
    using perform_begin [OF p] by simp_all
  have k: "device_address s'' = a" "extends a s1 s''"
    using perform_all_keeps [OF rest nb] b(1) by (simp_all add: keeps_address_def)
  show "device_address s'' = a" by (rule k(1))
  show "extends a s s''" using b(2) k(2) by (rule extends_trans)
qed

theorem device_address_frame_witness:
  "perform (answering_bus 0x20 [0x81]) Reset (idle_system 0x5A) =
     Inr (Flag True,
          \<lparr>device_address = 0x5A, tx_address = 0x5A, tx_buffer = [], rx_buffer = [],
            trace = [Transmit 0x5A [0xFF, 0x11, 0xE5, 0x72, 0x8A]]\<rparr>)
   \<and> \<not> is_begin Reset
   \<and> extends 0x5A (idle_system 0x5A)
         \<lparr>device_address = 0x5A, tx_address = 0x5A, tx_buffer = [], rx_buffer = [],
           trace = [Transmit 0x5A [0xFF, 0x11, 0xE5, 0x72, 0x8A]]\<rparr>
   \<and> perform_all (answering_bus 0x20 [0x81]) [Begin 0x5B 0, Reset] (idle_system 0x5A) =
     Inr \<lparr>device_address = 0x5B, tx_address = 0x5B, tx_buffer = [], rx_buffer = [],
           trace = [Transmit 0x5B [0xFF, 0x11, 0xE5, 0x72, 0x8A], Request 0x5B 1,
                    Transmit 0x5B [0x20]]\<rparr>
   \<and> no_begin [Reset]
   \<and> extends 0x5B (idle_system 0x5A)
         \<lparr>device_address = 0x5B, tx_address = 0x5B, tx_buffer = [], rx_buffer = [],
           trace = [Transmit 0x5B [0xFF, 0x11, 0xE5, 0x72, 0x8A], Request 0x5B 1,
                    Transmit 0x5B [0x20]]\<rparr>"
proof -
  let ?b = "answering_bus 0x20 [0x81]"
  let ?s1 = "\<lparr>device_address = 0x5A, tx_address = 0x5A, tx_buffer = [], rx_buffer = [],
      trace = [Transmit 0x5A [0xFF, 0x11, 0xE5, 0x72, 0x8A]]\<rparr>"
  let ?s2 = "\<lparr>device_address = 0x5B, tx_address = 0x5B, tx_buffer = [], rx_buffer = [],
      trace = [Transmit 0x5B [0xFF, 0x11, 0xE5, 0x72, 0x8A], Request 0x5B 1,
               Transmit 0x5B [0x20]]\<rparr>"
  have e: "end_status ?b tr = 0" for tr
    by (simp add: answering_bus_def)
  have h1: "perform ?b Reset (idle_system 0x5A) = Inr (Flag True, ?s1)"
    by (simp add: flag_of_write_def reset_def write_reset_def CCS811_RESET_SEQUENCE_def
        write_register_4 e idle_system_def)
  have cc: "comms_check ?b 0 ((idle_system 0x5A)\<lparr>device_address := 0x5B\<rparr>) =
      (True, \<lparr>device_address = 0x5B, tx_address = 0x5B, tx_buffer = [], rx_buffer = [],
         trace = [Request 0x5B 1, Transmit 0x5B [0x20]]\<rparr>)"
    using comms_check_first_attempt
      [of ?b "(idle_system 0x5A)\<lparr>device_address := 0x5B\<rparr>" "0x81" "[]" 0]
    by (simp add: answering_bus_def selected_def requested_def idle_system_def
        CCS811_HARDWARE_ID_def)
  have h2: "perform_all ?b [Begin 0x5B 0, Reset] (idle_system 0x5A) = Inr ?s2"
    by (simp add: begin_ccs811_def cc flag_of_write_def reset_def write_reset_def
        CCS811_RESET_SEQUENCE_def write_register_4 e)
  from device_address_frame
    [of ?b Reset "idle_system 0x5A" "Flag True" ?s1 "0x5B" 0 "[Reset]" ?s2] h1 h2
  show ?thesis
    by simp
qed

end
